theory Spec2Isabelle
  imports Complex_Main
begin

section \<open>psrecord: the process monitor of \<open>src/psrecord/main.py\<close>\<close>

text \<open>
  The program attaches to a process (or spawns a shell command), polls the process through
  psutil until it ends or a time budget is used up, writes one row per sample to a log file
  and finally draws a chart of the collected samples.

  Modelling decisions:
  \<^item> Python floats are idealised as \<open>real\<close>: rounding is not modelled.
  \<^item> Every call into psutil, the file system, \<open>time.sleep\<close>, \<open>subprocess\<close> and
    matplotlib is answered by the environment; the answer is either a value or an exception
    (\<open>exn + 'a\<close>, \<open>Inl\<close> the exception). \<open>KeyboardInterrupt\<close> is delivered as the answer
    of such a call.
  \<^item> What the program does to the outside world, and each append to its in-memory
    \<open>log\<close> dictionary, is an \<open>event\<close>; a run yields the list of its events in order.
    The series held in \<open>log\<close> at any moment is the list of samples appended so far.
  \<^item> \<open>while True\<close> consumes one observation of the environment per iteration; a run
    that is still inside the loop when the observations are used up has no result
    (\<open>None\<close>).
\<close>

subsection \<open>Exceptions\<close>

datatype exn =
    AttributeError
  | TypeError
  | IndexError
  | ValueError
  | OSError
  | NoSuchProcess
  | AccessDenied
  | KeyboardInterrupt

text \<open>\<open>except Exception\<close> catches every exception above but \<open>KeyboardInterrupt\<close>, which
  derives from \<open>BaseException\<close> only.\<close>

definition is_Exception :: "exn \<Rightarrow> bool" where
  "is_Exception e = (e \<noteq> KeyboardInterrupt)"

subsection \<open>Process handles\<close>

record meminfo =
  rss :: nat
  vms :: nat

text \<open>A psutil process handle as seen during one sample pass: the answer of each accessor
  the program calls, under its current and its pre-2.0 name.\<close>

datatype proc = Proc
  (cpu_percent: "exn + real")
  (get_cpu_percent: "exn + real")
  (memory_info: "exn + meminfo")
  (get_memory_info: "exn + meminfo")
  (io_counters: "exn + nat list")
  (children: "exn + proc list")
  (get_children: "exn + proc list")

definition get_percent :: "proc \<Rightarrow> exn + real" where
  "get_percent process =
     (if cpu_percent process = Inl AttributeError then get_cpu_percent process
      else cpu_percent process)"

definition get_memory :: "proc \<Rightarrow> exn + meminfo" where
  "get_memory process =
     (if memory_info process = Inl AttributeError then get_memory_info process
      else memory_info process)"

text \<open>\<open>all_children\<close>: in its \<open>try\<close> block \<open>AttributeError\<close> falls back to
  \<open>get_children\<close> (whose own exception is not caught) and any other \<open>Exception\<close>
  leaves \<open>children = []\<close>; \<open>walk\<close> is the \<open>for child in children\<close> loop, which
  appends the child and then its own descendants.\<close>

fun all_children :: "proc \<Rightarrow> exn + proc list"
  and walk :: "proc list \<Rightarrow> exn + proc list" where
  "all_children (Proc c gc m gm io ch gch) =
     (case ch of
        Inr cs \<Rightarrow> walk cs
      | Inl e \<Rightarrow>
          if e = AttributeError then (case gch of Inl e' \<Rightarrow> Inl e' | Inr cs \<Rightarrow> walk cs)
          else if is_Exception e then Inr []
          else Inl e)"
| "walk [] = Inr []"
| "walk (child # rest) =
     (case all_children child of
        Inl e \<Rightarrow> Inl e
      | Inr ds \<Rightarrow> (case walk rest of Inl e \<Rightarrow> Inl e | Inr others \<Rightarrow> Inr (child # ds @ others)))"

subsection \<open>Configuration, samples and events\<close>

datatype status = Running | Sleeping | Disk_sleep | Stopped | Idle | Zombie | Dead

text \<open>The keyword arguments of \<open>monitor\<close>.\<close>

record config =
  logfile :: "string option"
  plot :: "string option"
  duration :: "real option"
  interval :: "real option"
  include_children :: bool
  include_io :: bool
  max_cpu_scale :: bool

text \<open>The defaults of \<open>monitor\<close>'s signature.\<close>

definition monitor_defaults :: config where
  "monitor_defaults =
     \<lparr>logfile = None, plot = None, duration = None, interval = None,
      include_children = False, include_io = True, max_cpu_scale = False\<rparr>"

text \<open>\<open>if logfile:\<close> and \<open>if plot:\<close> test truthiness: \<open>None\<close> and the empty string are
  both false.\<close>

definition truthy :: "string option \<Rightarrow> bool" where
  "truthy s = (case s of None \<Rightarrow> False | Some t \<Rightarrow> t \<noteq> [])"

text \<open>One sample: the values appended to \<open>log['times']\<close>, \<open>log['cpu']\<close>,
  \<open>log['mem_real']\<close>, \<open>log['mem_virtual']\<close>, \<open>log['io_read']\<close> and \<open>log['io_write']\<close>.\<close>

record sample =
  elapsed :: real
  cpu :: real
  mem_real :: real
  mem_virtual :: real
  io_read :: real
  io_write :: real

text \<open>The chart handed to \<open>fig.savefig\<close>: the CPU curve and its axis ceiling, the curves
  on the twin axis and their ceiling.\<close>

record chart =
  chart_times :: "real list"
  cpu_curve :: "real list"
  cpu_ylim :: real
  twin_curves :: "real list list"
  twin_ylim :: real

datatype event =
    Print_attaching int
  | Print_starting string
  | Popen string int
  | Attach int
  | Log_open string
  | Log_header
  | Log_row real real real real
  | Log_flush
  | Sleep real
  | Append sample
  | Print_finished real
  | Log_close
  | Savefig string chart
  | Kill int

fun series_of :: "event list \<Rightarrow> sample list" where
  "series_of [] = []"
| "series_of (Append s # evs) = s # series_of evs"
| "series_of (_ # evs) = series_of evs"

fun rows_of :: "event list \<Rightarrow> (real \<times> real \<times> real \<times> real) list" where
  "rows_of [] = []"
| "rows_of (Log_row t c r v # evs) = (t, c, r, v) # rows_of evs"
| "rows_of (_ # evs) = rows_of evs"

subsection \<open>One iteration of the loop\<close>

text \<open>What the environment answers during one iteration: the clock, the status of the
  root handle (as a method and, for psutil before 2.0, as an attribute), the root handle with
  its tree, and the outcome of the write, the flush and the sleep.\<close>

record obs =
  now :: real
  status_call :: "exn + status"
  status_attr :: "exn + status"
  pr :: proc
  write_res :: "exn option"
  flush_res :: "exn option"
  sleep_res :: "exn option"

datatype 'a flow = Go 'a | Break | Raise exn

definition read_status :: "obs \<Rightarrow> status flow" where
  "read_status ob =
     (case status_call ob of
        Inr st \<Rightarrow> Go st
      | Inl e \<Rightarrow>
          if e = TypeError then (case status_attr ob of Inr st \<Rightarrow> Go st | Inl e' \<Rightarrow> Raise e')
          else if e = NoSuchProcess then Break
          else Raise e)"

text \<open>\<open>try: current_cpu = get_percent(pr); current_mem = get_memory(pr)
  except Exception: break\<close>\<close>

definition measure_root :: "proc \<Rightarrow> (real \<times> meminfo) flow" where
  "measure_root p =
     (case get_percent p of
        Inl e \<Rightarrow> if is_Exception e then Break else Raise e
      | Inr current_cpu \<Rightarrow>
          (case get_memory p of
             Inl e \<Rightarrow> if is_Exception e then Break else Raise e
           | Inr current_mem \<Rightarrow> Go (current_cpu, current_mem)))"

definition mb :: "nat \<Rightarrow> real" where
  "mb bytes = real bytes / 1024 ^ 2"

text \<open>\<open>io_counters[i]\<close> on the tuple psutil returns.\<close>

definition item :: "nat list \<Rightarrow> nat \<Rightarrow> exn + nat" where
  "item xs i = (if i < length xs then Inr (xs ! i) else Inl IndexError)"

text \<open>The loop over \<open>all_children(pr)\<close>. \<open>current_cpu += get_percent(child)\<close> has taken
  effect when \<open>get_memory(child)\<close> raises; \<open>continue\<close> then skips the two memory
  additions only.\<close>

fun add_children :: "proc list \<Rightarrow> real \<times> real \<times> real \<Rightarrow> exn + real \<times> real \<times> real" where
  "add_children [] acc = Inr acc"
| "add_children (child # rest) (current_cpu, current_mem_real, current_mem_virtual) =
     (case get_percent child of
        Inl e \<Rightarrow>
          if is_Exception e
          then add_children rest (current_cpu, current_mem_real, current_mem_virtual)
          else Inl e
      | Inr c \<Rightarrow>
          (case get_memory child of
             Inl e \<Rightarrow>
               if is_Exception e
               then add_children rest (current_cpu + c, current_mem_real, current_mem_virtual)
               else Inl e
           | Inr current_mem \<Rightarrow>
               add_children rest
                 (current_cpu + c,
                  current_mem_real + mb (rss current_mem),
                  current_mem_virtual + mb (vms current_mem))))"

text \<open>From the root queries to the aggregated values of the sample.\<close>

definition take_sample :: "config \<Rightarrow> real \<Rightarrow> proc \<Rightarrow> sample flow" where
  "take_sample cfg t p =
     (case measure_root p of
        Break \<Rightarrow> Break
      | Raise e \<Rightarrow> Raise e
      | Go (current_cpu, current_mem) \<Rightarrow>
          (case io_counters p of
             Inl e \<Rightarrow> Raise e
           | Inr counters \<Rightarrow>
               (case item counters 2 of
                  Inl e \<Rightarrow> Raise e
                | Inr read_bytes \<Rightarrow>
                    (case item counters 3 of
                       Inl e \<Rightarrow> Raise e
                     | Inr write_bytes \<Rightarrow>
                         (case (if include_children cfg
                                then (case all_children p of
                                        Inl e \<Rightarrow> Inl e
                                      | Inr ds \<Rightarrow>
                                          add_children ds
                                            (current_cpu, mb (rss current_mem),
                                             mb (vms current_mem)))
                                else Inr (current_cpu, mb (rss current_mem),
                                          mb (vms current_mem))) of
                            Inl e \<Rightarrow> Raise e
                          | Inr (c, r, v) \<Rightarrow>
                              Go \<lparr>elapsed = t, cpu = c, mem_real = r, mem_virtual = v,
                                  io_read = mb read_bytes, io_write = mb write_bytes\<rparr>)))))"

text \<open>The tail of the iteration: the log row and its flush, the sleep, the append.\<close>

definition write_row :: "config \<Rightarrow> obs \<Rightarrow> sample \<Rightarrow> event list \<times> exn option" where
  "write_row cfg ob s =
     (if truthy (logfile cfg) then
        (case write_res ob of
           Some e \<Rightarrow> ([], Some e)
         | None \<Rightarrow>
             (case flush_res ob of
                Some e \<Rightarrow> ([Log_row (elapsed s) (cpu s) (mem_real s) (mem_virtual s)], Some e)
              | None \<Rightarrow>
                  ([Log_row (elapsed s) (cpu s) (mem_real s) (mem_virtual s), Log_flush], None)))
      else ([], None))"

definition pause :: "config \<Rightarrow> obs \<Rightarrow> event list \<times> exn option" where
  "pause cfg ob =
     (case interval cfg of
        None \<Rightarrow> ([], None)
      | Some i \<Rightarrow> (case sleep_res ob of Some e \<Rightarrow> ([], Some e) | None \<Rightarrow> ([Sleep i], None)))"

definition record_sample :: "config \<Rightarrow> obs \<Rightarrow> sample \<Rightarrow> event list \<times> unit flow" where
  "record_sample cfg ob s =
     (case write_row cfg ob s of
        (evs, Some e) \<Rightarrow> (evs, Raise e)
      | (evs, None) \<Rightarrow>
          (case pause cfg ob of
             (evs', Some e) \<Rightarrow> (evs @ evs', Raise e)
           | (evs', None) \<Rightarrow>
               (evs @ evs' @ (if truthy (plot cfg) then [Append s] else []), Go ())))"

definition over_time :: "config \<Rightarrow> real \<Rightarrow> bool" where
  "over_time cfg t = (case duration cfg of None \<Rightarrow> False | Some d \<Rightarrow> t > d)"

definition iteration :: "config \<Rightarrow> real \<Rightarrow> obs \<Rightarrow> event list \<times> unit flow" where
  "iteration cfg start_time ob =
     (let t = now ob - start_time in
      case read_status ob of
        Break \<Rightarrow> ([], Break)
      | Raise e \<Rightarrow> ([], Raise e)
      | Go pr_status \<Rightarrow>
          if pr_status = Zombie \<or> pr_status = Dead then ([Print_finished t], Break)
          else if over_time cfg t then ([], Break)
          else (case take_sample cfg t (pr ob) of
                  Break \<Rightarrow> ([], Break)
                | Raise e \<Rightarrow> ([], Raise e)
                | Go s \<Rightarrow> record_sample cfg ob s))"

subsection \<open>The loop\<close>

text \<open>\<open>while True\<close>: the result is the events of the loop and how it was left, \<open>None\<close>
  by \<open>break\<close> and \<open>Some e\<close> by the exception \<open>e\<close>.\<close>

fun loop :: "config \<Rightarrow> real \<Rightarrow> obs list \<Rightarrow> (event list \<times> exn option) option" where
  "loop cfg start_time [] = None"
| "loop cfg start_time (ob # obs) =
     (case iteration cfg start_time ob of
        (evs, Break) \<Rightarrow> Some (evs, None)
      | (evs, Raise e) \<Rightarrow> Some (evs, Some e)
      | (evs, Go _) \<Rightarrow>
          (case loop cfg start_time obs of
             None \<Rightarrow> None
           | Some (evs', r) \<Rightarrow> Some (evs @ evs', r)))"

subsection \<open>The chart\<close>

text \<open>Python's \<open>max\<close> of a list raises \<open>ValueError\<close> on the empty list.\<close>

definition py_max :: "real list \<Rightarrow> exn + real" where
  "py_max xs = (case xs of [] \<Rightarrow> Inl ValueError | x # ys \<Rightarrow> Inr (fold max ys x))"

text \<open>\<open>int(os.cpu_count())\<close> raises \<open>TypeError\<close> when \<open>os.cpu_count()\<close> is \<open>None\<close>.\<close>

definition cpu_axis :: "config \<Rightarrow> nat option \<Rightarrow> sample list \<Rightarrow> exn + real" where
  "cpu_axis cfg cpu_count ss =
     (if max_cpu_scale cfg then
        (case cpu_count of None \<Rightarrow> Inl TypeError | Some n \<Rightarrow> Inr (100 * real n))
      else (case py_max (map cpu ss) of Inl e \<Rightarrow> Inl e | Inr m \<Rightarrow> Inr (m * (12 / 10))))"

definition twin_axis :: "config \<Rightarrow> sample list \<Rightarrow> exn + real list list \<times> real" where
  "twin_axis cfg ss =
     (if include_io cfg then
        (case py_max (map mem_real ss) of
           Inl e \<Rightarrow> Inl e
         | Inr m \<Rightarrow>
             (case py_max (map io_read ss) of
                Inl e \<Rightarrow> Inl e
              | Inr r \<Rightarrow>
                  (case py_max (map io_write ss) of
                     Inl e \<Rightarrow> Inl e
                   | Inr w \<Rightarrow>
                       Inr ([map mem_real ss, map io_read ss, map io_write ss],
                            max (max m r) w * (12 / 10)))))
      else
        (case py_max (map mem_real ss) of
           Inl e \<Rightarrow> Inl e
         | Inr m \<Rightarrow> Inr ([map mem_real ss], m * (12 / 10))))"

definition render :: "config \<Rightarrow> nat option \<Rightarrow> sample list \<Rightarrow> exn + chart" where
  "render cfg cpu_count ss =
     (case cpu_axis cfg cpu_count ss of
        Inl e \<Rightarrow> Inl e
      | Inr ceil_cpu \<Rightarrow>
          (case twin_axis cfg ss of
             Inl e \<Rightarrow> Inl e
           | Inr (curves, ceil_twin) \<Rightarrow>
               Inr \<lparr>chart_times = map elapsed ss, cpu_curve = map cpu ss,
                    cpu_ylim = ceil_cpu, twin_curves = curves, twin_ylim = ceil_twin\<rparr>))"

subsection \<open>\<open>monitor\<close>\<close>

text \<open>What the environment answers outside the loop, and the observations of the loop.\<close>

record world =
  int_of :: "string \<Rightarrow> int option"
  popen :: "exn + int"
  process_ctor :: "exn option"
  clock :: real
  open_res :: "exn option"
  header_res :: "exn option"
  passes :: "obs list"
  close_res :: "exn option"
  cpu_count :: "nat option"
  savefig_res :: "exn option"

definition open_log :: "config \<Rightarrow> world \<Rightarrow> event list \<times> exn option" where
  "open_log cfg w =
     (if truthy (logfile cfg) then
        (case open_res w of
           Some e \<Rightarrow> ([], Some e)
         | None \<Rightarrow>
             (case header_res w of
                Some e \<Rightarrow> ([Log_open (the (logfile cfg))], Some e)
              | None \<Rightarrow> ([Log_open (the (logfile cfg)), Log_header], None)))
      else ([], None))"

definition close_log :: "config \<Rightarrow> world \<Rightarrow> event list \<times> exn option" where
  "close_log cfg w =
     (if truthy (logfile cfg) then
        (case close_res w of Some e \<Rightarrow> ([], Some e) | None \<Rightarrow> ([Log_close], None))
      else ([], None))"

definition draw :: "config \<Rightarrow> world \<Rightarrow> sample list \<Rightarrow> event list \<times> exn option" where
  "draw cfg w ss =
     (if truthy (plot cfg) then
        (case render cfg (cpu_count w) ss of
           Inl e \<Rightarrow> ([], Some e)
         | Inr ch \<Rightarrow>
             (case savefig_res w of
                Some e \<Rightarrow> ([], Some e)
              | None \<Rightarrow> ([Savefig (the (plot cfg)) ch], None)))
      else ([], None))"

text \<open>The statements after the loop.\<close>

definition finish :: "config \<Rightarrow> world \<Rightarrow> sample list \<Rightarrow> event list \<times> exn option" where
  "finish cfg w ss =
     (case close_log cfg w of
        (evs, Some e) \<Rightarrow> (evs, Some e)
      | (evs, None) \<Rightarrow> (case draw cfg w ss of (evs', r) \<Rightarrow> (evs @ evs', r)))"

text \<open>\<open>monitor\<close>: the result is the events of the call and \<open>None\<close> when it returns,
  \<open>Some e\<close> when it raises \<open>e\<close>. The \<open>try\<close> around the loop catches
  \<open>KeyboardInterrupt\<close> only.\<close>

definition monitor :: "config \<Rightarrow> int \<Rightarrow> world \<Rightarrow> (event list \<times> exn option) option" where
  "monitor cfg pid w =
     (case process_ctor w of
        Some e \<Rightarrow> Some ([], Some e)
      | None \<Rightarrow>
          (case open_log cfg w of
             (evs0, Some e) \<Rightarrow> Some (Attach pid # evs0, Some e)
           | (evs0, None) \<Rightarrow>
               (case loop cfg (clock w) (passes w) of
                  None \<Rightarrow> None
                | Some (evs1, r) \<Rightarrow>
                    if r = None \<or> r = Some KeyboardInterrupt then
                      (case finish cfg w (series_of evs1) of
                         (evs2, r') \<Rightarrow> Some (Attach pid # evs0 @ evs1 @ evs2, r'))
                    else Some (Attach pid # evs0 @ evs1, r))))"

subsection \<open>\<open>main\<close>\<close>

text \<open>The namespace \<open>parse_args\<close> returns.\<close>

record args =
  process_id_or_command :: string
  arg_log :: "string option"
  arg_plot :: "string option"
  arg_duration :: "real option"
  arg_interval :: "real option"
  arg_include_children :: bool
  arg_include_io :: bool
  arg_max_cpu_scale :: bool

text \<open>The namespace for a command line that holds the positional argument only: an option
  of type \<open>str\<close> or \<open>float\<close> that is not given is \<open>None\<close>, and an
  \<open>action='store_true'\<close> switch that is not given is \<open>False\<close>.\<close>

definition bare_args :: "string \<Rightarrow> args" where
  "bare_args target =
     \<lparr>process_id_or_command = target, arg_log = None, arg_plot = None,
      arg_duration = None, arg_interval = None, arg_include_children = False,
      arg_include_io = False, arg_max_cpu_scale = False\<rparr>"

text \<open>The keyword arguments \<open>main\<close> passes to \<open>monitor\<close>: every one is given, so no default
  of \<open>monitor\<close>'s signature is used.\<close>

definition config_of :: "args \<Rightarrow> config" where
  "config_of a =
     \<lparr>logfile = arg_log a, plot = arg_plot a, duration = arg_duration a,
      interval = arg_interval a, include_children = arg_include_children a,
      include_io = arg_include_io a, max_cpu_scale = arg_max_cpu_scale a\<rparr>"

text \<open>\<open>main\<close>: \<open>int_of\<close> is Python's \<open>int\<close> on the positional argument, \<open>None\<close> when it
  raises. \<open>sprocess.kill()\<close> is the statement after the call of \<open>monitor\<close>.\<close>

definition main :: "args \<Rightarrow> world \<Rightarrow> (event list \<times> exn option) option" where
  "main a w =
     (case int_of w (process_id_or_command a) of
        Some pid \<Rightarrow>
          (case monitor (config_of a) pid w of
             None \<Rightarrow> None
           | Some (evs, r) \<Rightarrow> Some (Print_attaching pid # evs, r))
      | None \<Rightarrow>
          (case popen w of
             Inl e \<Rightarrow> Some ([Print_starting (process_id_or_command a)], Some e)
           | Inr pid \<Rightarrow>
               (case monitor (config_of a) pid w of
                  None \<Rightarrow> None
                | Some (evs, r) \<Rightarrow>
                    (case r of
                       Some e \<Rightarrow>
                         Some (Print_starting (process_id_or_command a)
                               # Popen (process_id_or_command a) pid # evs, Some e)
                     | None \<Rightarrow>
                         Some (Print_starting (process_id_or_command a)
                               # Popen (process_id_or_command a) pid # evs @ [Kill pid],
                               None)))))"

subsection \<open>Derived notions and sample inputs\<close>

text \<open>The events of a run of consecutive iterations.\<close>

definition events_of :: "config \<Rightarrow> real \<Rightarrow> obs list \<Rightarrow> event list" where
  "events_of cfg t0 obs = concat (map (\<lambda>ob. fst (iteration cfg t0 ob)) obs)"

text \<open>The descendants of a handle as the walk is meant to list them: for each direct child
  the child, then its own descendants; \<open>kids\<close> are the direct children the walk gets to
  see, none when the query for them fails.\<close>

definition kids :: "proc \<Rightarrow> proc list" where
  "kids p =
     (case children p of
        Inr cs \<Rightarrow> cs
      | Inl e \<Rightarrow>
          if e = AttributeError then (case get_children p of Inl e' \<Rightarrow> [] | Inr cs \<Rightarrow> cs)
          else [])"

fun descendants :: "proc \<Rightarrow> proc list"
  and flat :: "proc list \<Rightarrow> proc list" where
  "descendants (Proc c gc m gm io ch gch) =
     (case ch of
        Inr cs \<Rightarrow> flat cs
      | Inl e \<Rightarrow>
          if e = AttributeError then (case gch of Inl e' \<Rightarrow> [] | Inr cs \<Rightarrow> flat cs)
          else [])"
| "flat [] = []"
| "flat (child # rest) = child # descendants child @ flat rest"

text \<open>A handle of a current psutil (the pre-2.0 names are absent), an observation during
  which nothing fails, and a world in which nothing fails and the positional argument is a
  command.\<close>

definition handle :: "real \<Rightarrow> exn + meminfo \<Rightarrow> exn + nat list \<Rightarrow> proc list \<Rightarrow> proc" where
  "handle c m io cs =
     Proc (Inr c) (Inl AttributeError) m (Inl AttributeError) io (Inr cs) (Inl AttributeError)"

definition mib :: nat where
  "mib = 1048576"

definition family :: proc where
  "family =
     handle 10 (Inr \<lparr>rss = 4 * mib, vms = 8 * mib\<rparr>) (Inr [7, 9, 3 * mib, 5 * mib])
       [handle 15 (Inr \<lparr>rss = 1 * mib, vms = 2 * mib\<rparr>) (Inr [1, 1, 6 * mib, 6 * mib]) [],
        handle 15 (Inr \<lparr>rss = 2 * mib, vms = 2 * mib\<rparr>) (Inr [1, 1, 6 * mib, 6 * mib]) []]"

definition seen :: "real \<Rightarrow> status \<Rightarrow> proc \<Rightarrow> obs" where
  "seen t st p =
     \<lparr>now = t, status_call = Inr st, status_attr = Inr st, pr = p,
      write_res = None, flush_res = None, sleep_res = None\<rparr>"

definition calm :: "obs list \<Rightarrow> world" where
  "calm obs =
     \<lparr>int_of = (\<lambda>s. None), popen = Inr 4242, process_ctor = None, clock = 0,
      open_res = None, header_res = None, passes = obs, close_res = None,
      cpu_count = Some 4, savefig_res = None\<rparr>"

text \<open>A root with a child and a grandchild; the grandchild has ended between its two
  queries: its CPU query gives the answer passed in, its memory query raises.\<close>

definition stale_family :: "exn + real \<Rightarrow> proc" where
  "stale_family answer =
     handle 10 (Inr \<lparr>rss = 4 * mib, vms = 8 * mib\<rparr>) (Inr [7, 9, 3 * mib, 5 * mib])
       [handle 15 (Inr \<lparr>rss = 1 * mib, vms = 2 * mib\<rparr>) (Inr [1, 1, 6 * mib, 6 * mib])
          [Proc answer (Inl AttributeError) (Inl NoSuchProcess) (Inl AttributeError)
             (Inr [1, 1, 6 * mib, 6 * mib]) (Inr []) (Inl AttributeError)]]"

definition with_children :: config where
  "with_children = monitor_defaults\<lparr>include_children := True\<rparr>"

definition charting :: config where
  "charting = monitor_defaults\<lparr>plot := Some ''plot.png''\<rparr>"

definition three_running :: "obs list" where
  "three_running = [seen 1 Running family, seen 2 Sleeping family, seen 3 Running family]"

text \<open>A root without children.\<close>

definition lonely :: proc where
  "lonely = handle 10 (Inr \<lparr>rss = 4 * mib, vms = 8 * mib\<rparr>) (Inr [7, 9, 3 * mib, 5 * mib]) []"

text \<open>A root whose only child answers the CPU query and denies the memory query, and a
  root that denies the I/O counters.\<close>

definition lame_family :: proc where
  "lame_family =
     handle 10 (Inr \<lparr>rss = 4 * mib, vms = 8 * mib\<rparr>) (Inr [7, 9, 3 * mib, 5 * mib])
       [handle 15 (Inl AccessDenied) (Inr [1, 1, 6 * mib, 6 * mib]) []]"

definition no_io :: proc where
  "no_io = handle 10 (Inr \<lparr>rss = 4 * mib, vms = 8 * mib\<rparr>) (Inl AccessDenied) []"

definition logging_charting :: config where
  "logging_charting =
     monitor_defaults\<lparr>logfile := Some ''log.txt'', plot := Some ''plot.png''\<rparr>"

definition spawn_args :: args where
  "spawn_args = (bare_args ''sleep 5'')\<lparr>arg_log := Some ''log.txt''\<rparr>"

text \<open>A result with the \<open>savefig\<close> events left out: everything a run does besides the
  chart.\<close>

fun is_Savefig :: "event \<Rightarrow> bool" where
  "is_Savefig (Savefig path ch) = True"
| "is_Savefig _ = False"

definition besides_chart ::
  "(event list \<times> exn option) option \<Rightarrow> (event list \<times> exn option) option" where
  "besides_chart res =
     (case res of
        None \<Rightarrow> None
      | Some (evs, r) \<Rightarrow> Some (filter (\<lambda>e. \<not> is_Savefig e) evs, r))"

text \<open>A time budget of two and a half seconds; a log, a chart and a sleep of one second;
  an iteration interrupted in its sleep, and one interrupted in its status query.\<close>

definition timed :: config where
  "timed = charting\<lparr>duration := Some (5 / 2)\<rparr>"



definition cancelled :: obs where
  "cancelled = (seen 2 Running lonely)\<lparr>status_call := Inl KeyboardInterrupt\<rparr>"

section \<open>Properties\<close>

lemmas sample_defs = take_sample_def measure_root_def get_percent_def get_memory_def item_def
  mb_def is_Exception_def handle_def mib_def

lemmas iteration_defs = iteration_def read_status_def over_time_def record_sample_def
  write_row_def pause_def truthy_def seen_def

lemmas run_defs = monitor_def open_log_def close_log_def draw_def finish_def render_def
  cpu_axis_def twin_axis_def py_max_def calm_def config_of_def bare_args_def main_def

subsection \<open>Events of the loop\<close>

lemma series_of_append: "series_of (a @ b) = series_of a @ series_of b"
  by (induction a rule: series_of.induct) auto

lemma rows_of_append: "rows_of (a @ b) = rows_of a @ rows_of b"
  by (induction a rule: rows_of.induct) auto

lemma take_sample_elapsed: "take_sample cfg t p = Go s \<Longrightarrow> elapsed s = t"
  by (auto simp: take_sample_def split: flow.splits sum.splits prod.splits if_splits)

lemma loop_continue:
  "\<forall>ob\<in>set pre. snd (iteration cfg t0 ob) = Go () \<Longrightarrow>
   loop cfg t0 (pre @ rest) =
     (case loop cfg t0 rest of
        None \<Rightarrow> None
      | Some (evs, r) \<Rightarrow> Some (concat (map (\<lambda>ob. fst (iteration cfg t0 ob)) pre) @ evs, r))"
proof (induction pre)
  case Nil
  then show ?case by (simp split: option.splits)
next
  case (Cons ob pre)
  then show ?case
    by (cases "iteration cfg t0 ob") (auto split: option.splits)
qed

lemma record_sample_Go:
  "record_sample cfg ob s = (evs, Go u) \<Longrightarrow>
     series_of evs = (if truthy (plot cfg) then [s] else []) \<and>
     rows_of evs =
       (if truthy (logfile cfg) then [(elapsed s, cpu s, mem_real s, mem_virtual s)] else []) \<and>
     (\<forall>t. Print_finished t \<notin> set evs)"
  by (auto simp: record_sample_def write_row_def pause_def
      split: prod.splits option.splits if_splits)

lemma iteration_Go:
  assumes "iteration cfg t0 ob = (evs, Go u)"
  shows "\<exists>s. take_sample cfg (now ob - t0) (pr ob) = Go s
           \<and> \<not> over_time cfg (now ob - t0)
           \<and> record_sample cfg ob s = (evs, Go u)"
  using assms
  by (auto simp: iteration_def Let_def split: flow.splits if_splits)

lemma iteration_Go_counts:
  assumes "snd (iteration cfg t0 ob) = Go ()"
  shows "length (series_of (fst (iteration cfg t0 ob))) = (if truthy (plot cfg) then 1 else 0)"
    and "length (rows_of (fst (iteration cfg t0 ob))) = (if truthy (logfile cfg) then 1 else 0)"
    and "Print_finished t \<notin> set (fst (iteration cfg t0 ob))"
proof -
  obtain evs where e: "iteration cfg t0 ob = (evs, Go ())"
    using assms by (cases "iteration cfg t0 ob") simp
  from iteration_Go [OF e] obtain s where "record_sample cfg ob s = (evs, Go ())" by blast
  from record_sample_Go [OF this] e
  show "length (series_of (fst (iteration cfg t0 ob))) = (if truthy (plot cfg) then 1 else 0)"
    and "length (rows_of (fst (iteration cfg t0 ob))) = (if truthy (logfile cfg) then 1 else 0)"
    and "Print_finished t \<notin> set (fst (iteration cfg t0 ob))"
    by simp_all
qed

lemma events_of_counts:
  assumes "\<forall>ob\<in>set pre. snd (iteration cfg t0 ob) = Go ()"
  shows "length (series_of (events_of cfg t0 pre)) = (if truthy (plot cfg) then length pre else 0)"
    and "length (rows_of (events_of cfg t0 pre)) = (if truthy (logfile cfg) then length pre else 0)"
    and "Print_finished t \<notin> set (events_of cfg t0 pre)"
  using assms
proof (induction pre)
  case Nil
  {
    case 1 show ?case by (simp add: events_of_def)
  next
    case 2 show ?case by (simp add: events_of_def)
  next
    case 3 show ?case by (simp add: events_of_def)
  }
next
  case (Cons ob pre)
  {
    case 1
    with Cons.IH(1) iteration_Go_counts(1) [of cfg t0 ob] show ?case
      by (simp add: events_of_def series_of_append)
  next
    case 2
    with Cons.IH(2) iteration_Go_counts(2) [of cfg t0 ob] show ?case
      by (simp add: events_of_def rows_of_append)
  next
    case 3
    with Cons.IH(3) iteration_Go_counts(3) [of cfg t0 ob t] show ?case
      by (simp add: events_of_def)
  }
qed

lemma iteration_finished:
  "read_status ob = Go st \<Longrightarrow> st = Zombie \<or> st = Dead \<Longrightarrow>
   iteration cfg t0 ob = ([Print_finished (now ob - t0)], Break)"
  by (auto simp: iteration_def Let_def)

lemma iteration_over_time_stops:
  assumes "duration cfg = Some d" and "d < now ob - t0"
  shows "snd (iteration cfg t0 ob) \<noteq> Go ()"
  using assms
  by (auto simp: iteration_def Let_def over_time_def split: flow.splits)

lemma loop_returns:
  "\<exists>ob\<in>set obs. snd (iteration cfg t0 ob) \<noteq> Go () \<Longrightarrow> \<exists>evs r. loop cfg t0 obs = Some (evs, r)"
proof (induction obs)
  case Nil
  then show ?case by simp
next
  case (Cons ob obs)
  show ?case
  proof (cases "iteration cfg t0 ob")
    case (Pair evs fl)
    then show ?thesis
      using Cons by (cases fl) (auto split: option.splits)
  qed
qed

lemma iteration_within:
  assumes "duration cfg = Some d" and "iteration cfg t0 ob = (evs, fl)"
  shows "(\<forall>s\<in>set (series_of evs). elapsed s \<le> d) \<and> (\<forall>row\<in>set (rows_of evs). fst row \<le> d)"
proof (cases "\<exists>s. take_sample cfg (now ob - t0) (pr ob) = Go s \<and> \<not> over_time cfg (now ob - t0)
    \<and> (\<exists>fl'. record_sample cfg ob s = (evs, fl'))")
  case True
  then obtain s fl' where s: "take_sample cfg (now ob - t0) (pr ob) = Go s"
    and t: "\<not> over_time cfg (now ob - t0)" and r: "record_sample cfg ob s = (evs, fl')"
    by blast
  from take_sample_elapsed [OF s] t assms(1) have "elapsed s \<le> d"
    by (simp add: over_time_def)
  with r show ?thesis
    by (auto simp: record_sample_def write_row_def pause_def
        split: prod.splits option.splits if_splits)
next
  case False
  with assms(2) have "evs = [] \<or> (\<exists>t. evs = [Print_finished t])"
    by (auto simp: iteration_def Let_def split: flow.splits if_splits)
  then show ?thesis by auto
qed

lemma loop_within:
  assumes "duration cfg = Some d"
  shows "loop cfg t0 obs = Some (evs, r) \<Longrightarrow>
     (\<forall>s\<in>set (series_of evs). elapsed s \<le> d) \<and> (\<forall>row\<in>set (rows_of evs). fst row \<le> d)"
proof (induction obs arbitrary: evs r)
  case Nil
  then show ?case by simp
next
  case (Cons ob obs)
  obtain e1 fl where it: "iteration cfg t0 ob = (e1, fl)"
    by (cases "iteration cfg t0 ob")
  note w = iteration_within [OF assms it]
  show ?case
  proof (cases fl)
    case (Go u)
    with Cons.prems it obtain e2 where l: "loop cfg t0 obs = Some (e2, r)" and e: "evs = e1 @ e2"
      by (auto split: option.splits)
    from Cons.IH [OF l] w e show ?thesis
      by (auto simp: series_of_append rows_of_append)
  next
    case Break
    with Cons.prems it w show ?thesis by auto
  next
    case (Raise x)
    with Cons.prems it w show ?thesis by auto
  qed
qed

lemma iteration_silent:
  assumes "duration cfg = Some d" and "d < now ob - t0"
    and "read_status ob = Go st" and "st \<noteq> Zombie" and "st \<noteq> Dead"
  shows "iteration cfg t0 ob = ([], Break)"
  using assms by (simp add: iteration_def Let_def over_time_def)

subsection \<open>Log rows run ahead of the series\<close>




lemma iteration_lag:
  assumes "truthy (logfile cfg)" and "truthy (plot cfg)"
  shows "length (series_of (take n (fst (iteration cfg t0 ob))))
           \<le> length (rows_of (take n (fst (iteration cfg t0 ob))))"
  using assms
  by (auto simp: iteration_def Let_def record_sample_def write_row_def pause_def take_Cons'
      split: flow.splits prod.splits option.splits)

lemma iteration_level:
  assumes "truthy (logfile cfg)" and "truthy (plot cfg)"
  shows "length (series_of (fst (iteration cfg t0 ob)))
           \<le> length (rows_of (fst (iteration cfg t0 ob)))"
  using iteration_lag [OF assms, of "length (fst (iteration cfg t0 ob))" t0 ob] by simp







subsection \<open>Aggregation over the process tree\<close>

text \<open>
  C6. The claim has the CPU of a sample be the root's plus that of every descendant whose
  query succeeded, and the memory sum likewise. In the first sample below the grandchild
  answers 15 percent and then has its memory query fail: its 15 percent are in the CPU of the
  sample (40) and its memory is not in the memory of the sample, so the two sums range over
  different descendants. The second sample is that of the same tree when the CPU query of
  the grandchild fails too (25). The I/O values are the root's in both.
\<close>

theorem half_counted_grandchild:
  "take_sample with_children 1 (stale_family (Inr 15))
     = Go \<lparr>elapsed = 1, cpu = 40, mem_real = 5, mem_virtual = 10, io_read = 3, io_write = 5\<rparr>
   \<and> take_sample with_children 1 (stale_family (Inl NoSuchProcess))
     = Go \<lparr>elapsed = 1, cpu = 25, mem_real = 5, mem_virtual = 10, io_read = 3, io_write = 5\<rparr>"
  by (simp add: stale_family_def with_children_def monitor_defaults_def sample_defs)

text \<open>\<open>all_children\<close> lists every descendant, depth first: what it returns is
  \<open>descendants\<close>, which holds every child and, with a child, the child's descendants.\<close>

lemma all_children_descendants:
  "all_children p = Inr ds \<Longrightarrow> ds = descendants p"
  "walk ps = Inr ds \<Longrightarrow> ds = flat ps"
proof (induction p and ps arbitrary: ds and ds rule: all_children_walk.induct)
  case (1 c gc m gm io ch gch)
  then show ?case
    by (auto split: sum.splits if_splits)
next
  case 2
  then show ?case by simp
next
  case (3 child rest)
  then show ?case
    by (auto split: sum.splits)
qed

lemma descendants_kids: "descendants p = flat (kids p)"
  by (cases p) (auto simp: kids_def split: sum.splits)

lemma flat_closed:
  "c \<in> set ps \<Longrightarrow> c \<in> set (flat ps) \<and> set (descendants c) \<subseteq> set (flat ps)"
  by (induction ps) auto

lemma descendants_closed:
  assumes "c \<in> set (kids p)"
  shows "c \<in> set (descendants p)" and "set (descendants c) \<subseteq> set (descendants p)"
  using flat_closed [OF assms] by (simp_all add: descendants_kids)

text \<open>What holds of every sample: the CPU is the root's plus that of the descendants whose
  CPU query answered, the memory the root's plus that of the descendants whose two queries
  answered, and the I/O values are those of the root's own counters.\<close>

lemma add_children_sum:
  "add_children ds (c, r, v) = Inr (c', r', v') \<Longrightarrow>
     c' = c + sum_list (map (\<lambda>d. projr (get_percent d)) (filter (\<lambda>d. \<not> isl (get_percent d)) ds)) \<and>
     r' = r + sum_list (map (\<lambda>d. mb (rss (projr (get_memory d))))
            (filter (\<lambda>d. \<not> isl (get_percent d) \<and> \<not> isl (get_memory d)) ds)) \<and>
     v' = v + sum_list (map (\<lambda>d. mb (vms (projr (get_memory d))))
            (filter (\<lambda>d. \<not> isl (get_percent d) \<and> \<not> isl (get_memory d)) ds))"
proof (induction ds arbitrary: c r v)
  case Nil
  then show ?case by simp
next
  case (Cons d ds)
  show ?case
  proof (cases "get_percent d")
    case (Inl e)
    with Cons.prems have "add_children ds (c, r, v) = Inr (c', r', v')"
      by (simp split: if_splits)
    from Cons.IH [OF this] Inl show ?thesis by simp
  next
    case (Inr pc)
    show ?thesis
    proof (cases "get_memory d")
      case (Inl e)
      with Cons.prems Inr have "add_children ds (c + pc, r, v) = Inr (c', r', v')"
        by (simp split: if_splits)
      from Cons.IH [OF this] Inl Inr show ?thesis by simp
    next
      case (Inr m)
      with Cons.prems \<open>get_percent d = Inr pc\<close>
      have "add_children ds (c + pc, r + mb (rss m), v + mb (vms m)) = Inr (c', r', v')"
        by simp
      from Cons.IH [OF this] Inr \<open>get_percent d = Inr pc\<close> show ?thesis by simp
    qed
  qed
qed

lemma aggregate_with_children:
  assumes "include_children cfg" and "take_sample cfg t p = Go s"
  shows "cpu s = projr (get_percent p)
           + sum_list (map (\<lambda>d. projr (get_percent d))
               (filter (\<lambda>d. \<not> isl (get_percent d)) (descendants p)))
       \<and> mem_real s = mb (rss (projr (get_memory p)))
           + sum_list (map (\<lambda>d. mb (rss (projr (get_memory d))))
               (filter (\<lambda>d. \<not> isl (get_percent d) \<and> \<not> isl (get_memory d)) (descendants p)))
       \<and> mem_virtual s = mb (vms (projr (get_memory p)))
           + sum_list (map (\<lambda>d. mb (vms (projr (get_memory d))))
               (filter (\<lambda>d. \<not> isl (get_percent d) \<and> \<not> isl (get_memory d)) (descendants p)))
       \<and> io_read s = mb (projr (io_counters p) ! 2)
       \<and> io_write s = mb (projr (io_counters p) ! 3)"
proof -
  from assms obtain c m counters ds c' r' v' where
    root: "get_percent p = Inr c" "get_memory p = Inr m" "io_counters p = Inr counters"
    and kids: "all_children p = Inr ds"
      "add_children ds (c, mb (rss m), mb (vms m)) = Inr (c', r', v')"
    and s: "s = \<lparr>elapsed = t, cpu = c', mem_real = r', mem_virtual = v',
                io_read = mb (counters ! 2), io_write = mb (counters ! 3)\<rparr>"
    by (auto simp: take_sample_def measure_root_def item_def
        split: flow.splits sum.splits prod.splits if_splits)
  from all_children_descendants(1) [OF kids(1)] have "ds = descendants p" .
  with add_children_sum [OF kids(2)] root s show ?thesis by simp
qed

lemma aggregate_with_children_example:
  "include_children with_children
   \<and> take_sample with_children 1 family
       = Go \<lparr>elapsed = 1, cpu = 40, mem_real = 7, mem_virtual = 12, io_read = 3, io_write = 5\<rparr>
   \<and> (40::real) = 10 + (15 + 15)"
proof -
  have c: "include_children with_children"
    by (simp add: with_children_def monitor_defaults_def)
  have s: "take_sample with_children 1 family
       = Go \<lparr>elapsed = 1, cpu = 40, mem_real = 7, mem_virtual = 12, io_read = 3, io_write = 5\<rparr>"
    by (simp add: family_def with_children_def monitor_defaults_def sample_defs)
  from aggregate_with_children [OF c s] c s show ?thesis
    by simp
qed

subsection \<open>The process ends\<close>

text \<open>
  C7. When the status read in an iteration is zombie or dead, the loop is left by
  \<open>break\<close> after printing "Process finished" with the elapsed time, and that iteration
  appends no sample and writes no row: after \<open>k - 1\<close> iterations that ran through, the
  series holds exactly those \<open>k - 1\<close> samples (when a chart is requested) and the log
  exactly \<open>k - 1\<close> rows (when a log is requested).
\<close>

theorem zombie_stops_loop:
  assumes "\<forall>x\<in>set pre. snd (iteration cfg t0 x) = Go ()"
    and "read_status ob = Go st" and "st = Zombie \<or> st = Dead"
  shows "loop cfg t0 (pre @ ob # post)
           = Some (events_of cfg t0 pre @ [Print_finished (now ob - t0)], None)
       \<and> series_of (events_of cfg t0 pre @ [Print_finished (now ob - t0)])
           = series_of (events_of cfg t0 pre)
       \<and> length (series_of (events_of cfg t0 pre))
           = (if truthy (plot cfg) then length pre else 0)
       \<and> length (rows_of (events_of cfg t0 pre @ [Print_finished (now ob - t0)]))
           = (if truthy (logfile cfg) then length pre else 0)"
proof -
  have "loop cfg t0 (ob # post) = Some ([Print_finished (now ob - t0)], None)"
    using iteration_finished [OF assms(2,3)] by simp
  with loop_continue [OF assms(1), of "ob # post"]
  have "loop cfg t0 (pre @ ob # post)
           = Some (events_of cfg t0 pre @ [Print_finished (now ob - t0)], None)"
    by (simp add: events_of_def)
  with events_of_counts(1,2) [OF assms(1)] show ?thesis
    by (simp add: series_of_append rows_of_append)
qed

lemma three_running_go:
  "\<forall>x\<in>set three_running. snd (iteration charting 0 x) = Go ()"
  by (simp add: three_running_def charting_def monitor_defaults_def family_def
      iteration_defs sample_defs)

theorem zombie_stops_loop_witness:
  "loop charting 0 (three_running @ seen 4 Zombie family # [])
     = Some (events_of charting 0 three_running @ [Print_finished 4], None)
   \<and> length (series_of (events_of charting 0 three_running)) = 3"
proof -
  have z: "read_status (seen 4 Zombie family) = Go Zombie"
    by (simp add: read_status_def seen_def)
  have p: "truthy (plot charting)"
    by (simp add: charting_def truthy_def)
  have n: "now (seen 4 Zombie family) - 0 = 4" "length three_running = 3"
    by (simp_all add: seen_def three_running_def)
  from zombie_stops_loop [OF three_running_go z, of "[]"] p n show ?thesis
    by simp
qed

subsection \<open>The time budget\<close>

text \<open>
  C8. With \<open>duration = d\<close>: the loop ends as soon as an iteration reads a clock more than
  \<open>d\<close> after the start (whatever the other answers of the environment are); every sample
  appended and every row written carries an elapsed time of at most \<open>d\<close>; and when the
  iteration that finds the budget used up reads a status other than zombie and dead, the loop
  is left by \<open>break\<close> with no event of that iteration, so nothing is printed.
\<close>

theorem duration_ends_loop:
  assumes "duration cfg = Some d"
  shows "((\<exists>ob\<in>set obs. d < now ob - t0) \<longrightarrow> (\<exists>evs r. loop cfg t0 obs = Some (evs, r)))
       \<and> (\<forall>evs r. loop cfg t0 obs = Some (evs, r) \<longrightarrow>
            (\<forall>s\<in>set (series_of evs). elapsed s \<le> d)
            \<and> (\<forall>row\<in>set (rows_of evs). fst row \<le> d))
       \<and> ((\<forall>x\<in>set pre. snd (iteration cfg t0 x) = Go ()) \<and> d < now late - t0
            \<and> read_status late = Go st \<and> st \<noteq> Zombie \<and> st \<noteq> Dead \<longrightarrow>
            loop cfg t0 (pre @ late # post) = Some (events_of cfg t0 pre, None)
            \<and> (\<forall>t. Print_finished t \<notin> set (events_of cfg t0 pre)))"
proof (intro conjI impI allI)
  assume "\<exists>ob\<in>set obs. d < now ob - t0"
  then have "\<exists>ob\<in>set obs. snd (iteration cfg t0 ob) \<noteq> Go ()"
    using iteration_over_time_stops [OF assms] by blast
  then show "\<exists>evs r. loop cfg t0 obs = Some (evs, r)"
    by (rule loop_returns)
next
  fix evs r
  assume l: "loop cfg t0 obs = Some (evs, r)"
  from loop_within [OF assms l] show "\<forall>s\<in>set (series_of evs). elapsed s \<le> d"
    and "\<forall>row\<in>set (rows_of evs). fst row \<le> d"
    by simp_all
next
  assume a: "(\<forall>x\<in>set pre. snd (iteration cfg t0 x) = Go ()) \<and> d < now late - t0
            \<and> read_status late = Go st \<and> st \<noteq> Zombie \<and> st \<noteq> Dead"
  then have "iteration cfg t0 late = ([], Break)"
    using iteration_silent [OF assms] by blast
  then have "loop cfg t0 (late # post) = Some ([], None)"
    by simp
  with a loop_continue [of pre cfg t0 "late # post"]
  show "loop cfg t0 (pre @ late # post) = Some (events_of cfg t0 pre, None)"
    by (simp add: events_of_def)
  fix t
  from a events_of_counts(3) [of pre cfg t0 t]
  show "Print_finished t \<notin> set (events_of cfg t0 pre)"
    by blast
qed

theorem duration_ends_loop_witness:
  "duration timed = Some (5 / 2)
   \<and> loop timed 0 ([seen 1 Running family, seen 2 Sleeping family] @ seen 3 Running family # [])
       = Some (events_of timed 0 [seen 1 Running family, seen 2 Sleeping family], None)
   \<and> map elapsed (series_of (events_of timed 0 [seen 1 Running family, seen 2 Sleeping family]))
       = [1, 2]"
proof -
  have d: "duration timed = Some (5 / 2)"
    by (simp add: timed_def)
  have p: "\<forall>x\<in>set [seen 1 Running family, seen 2 Sleeping family].
      snd (iteration timed 0 x) = Go ()"
    by (simp add: timed_def charting_def monitor_defaults_def family_def
        iteration_defs sample_defs)
  have l: "5 / 2 < now (seen 3 Running family) - 0"
    "read_status (seen 3 Running family) = Go Running"
    by (simp_all add: seen_def read_status_def)
  have s: "map elapsed (series_of (events_of timed 0 [seen 1 Running family, seen 2 Sleeping family]))
       = [1, 2]"
    by (simp add: events_of_def timed_def charting_def monitor_defaults_def family_def
        iteration_defs sample_defs)
  from duration_ends_loop [OF d, where pre = "[seen 1 Running family, seen 2 Sleeping family]"
      and late = "seen 3 Running family" and st = Running and post = "[]" and ?t0.0 = 0] p l d s
  show ?thesis by simp
qed

subsection \<open>The log and the series\<close>



subsection \<open>The flag \<open>include_io\<close>\<close>

lemma take_sample_include_io: "take_sample (cfg\<lparr>include_io := b\<rparr>) t p = take_sample cfg t p"
  by (simp add: take_sample_def split: flow.splits sum.splits prod.splits)

lemma over_time_include_io: "over_time (cfg\<lparr>include_io := b\<rparr>) t = over_time cfg t"
  unfolding over_time_def by simp

lemma record_sample_include_io:
  "record_sample (cfg\<lparr>include_io := b\<rparr>) ob s = record_sample cfg ob s"
  by (simp add: record_sample_def write_row_def pause_def split: option.splits prod.splits)

lemma iteration_include_io: "iteration (cfg\<lparr>include_io := b\<rparr>) t0 ob = iteration cfg t0 ob"
  unfolding iteration_def take_sample_include_io over_time_include_io record_sample_include_io
  by (rule refl)

lemma loop_include_io: "loop (cfg\<lparr>include_io := b\<rparr>) t0 obs = loop cfg t0 obs"
  by (induction obs) (simp_all add: iteration_include_io)

lemma open_log_include_io: "open_log (cfg\<lparr>include_io := b\<rparr>) w = open_log cfg w"
  by (simp add: open_log_def split: option.splits)

lemma close_log_include_io: "close_log (cfg\<lparr>include_io := b\<rparr>) w = close_log cfg w"
  by (simp add: close_log_def split: option.splits)

lemma draw_include_io:
  "snd (draw (cfg\<lparr>include_io := a\<rparr>) w ss) = snd (draw (cfg\<lparr>include_io := b\<rparr>) w ss)
   \<and> filter (\<lambda>e. \<not> is_Savefig e) (fst (draw (cfg\<lparr>include_io := a\<rparr>) w ss)) = []"
  by (cases ss)
    (auto simp: draw_def render_def cpu_axis_def twin_axis_def py_max_def
      split: option.splits sum.splits)

lemma finish_include_io:
  "snd (finish (cfg\<lparr>include_io := a\<rparr>) w ss) = snd (finish (cfg\<lparr>include_io := b\<rparr>) w ss)
   \<and> filter (\<lambda>e. \<not> is_Savefig e) (fst (finish (cfg\<lparr>include_io := a\<rparr>) w ss))
     = filter (\<lambda>e. \<not> is_Savefig e) (fst (finish (cfg\<lparr>include_io := b\<rparr>) w ss))"
  using draw_include_io [where cfg = cfg and a = a and b = b and w = w and ss = ss]
    draw_include_io [where cfg = cfg and a = b and b = a and w = w and ss = ss]
  by (auto simp: finish_def close_log_include_io split: option.splits prod.splits)

lemma monitor_include_io:
  "besides_chart (monitor (cfg\<lparr>include_io := a\<rparr>) pid w)
     = besides_chart (monitor (cfg\<lparr>include_io := b\<rparr>) pid w)"
proof (cases "loop cfg (clock w) (passes w)")
  case None
  then show ?thesis
    by (auto simp: monitor_def besides_chart_def open_log_include_io loop_include_io
        split: option.splits prod.splits)
next
  case (Some res)
  obtain e1 r1 where res: "res = (e1, r1)" by (cases res)
  obtain fa ra where fa: "finish (cfg\<lparr>include_io := a\<rparr>) w (series_of e1) = (fa, ra)"
    by (cases "finish (cfg\<lparr>include_io := a\<rparr>) w (series_of e1)")
  obtain fb rb where fb: "finish (cfg\<lparr>include_io := b\<rparr>) w (series_of e1) = (fb, rb)"
    by (cases "finish (cfg\<lparr>include_io := b\<rparr>) w (series_of e1)")
  from finish_include_io [where cfg = cfg and a = a and b = b and w = w and ss = "series_of e1"]
    fa fb
  have eq: "ra = rb" "filter (\<lambda>e. \<not> is_Savefig e) fa = filter (\<lambda>e. \<not> is_Savefig e) fb"
    by simp_all
  show ?thesis
    using Some res fa fb eq
    by (auto simp: monitor_def besides_chart_def open_log_include_io loop_include_io
        split: option.splits prod.splits)
qed

text \<open>
  C9, as amended. \<open>include_io\<close> is true by default in the signature of \<open>monitor\<close>, and
  false in what \<open>main\<close> passes for a command line without \<open>--include-io\<close>. It decides
  nothing but the chart: the loop yields the same events for both values, and a call of
  \<open>monitor\<close> yields the same events besides \<open>savefig\<close>, and the same outcome, for both.
\<close>

theorem include_io_only_changes_chart:
  "include_io monitor_defaults
   \<and> \<not> include_io (config_of (bare_args target))
   \<and> loop (cfg\<lparr>include_io := True\<rparr>) t0 obs = loop (cfg\<lparr>include_io := False\<rparr>) t0 obs
   \<and> besides_chart (monitor (cfg\<lparr>include_io := True\<rparr>) pid w)
       = besides_chart (monitor (cfg\<lparr>include_io := False\<rparr>) pid w)"
  using monitor_include_io [where cfg = cfg and a = True and b = False and pid = pid and w = w]
  by (simp add: monitor_defaults_def config_of_def bare_args_def loop_include_io)

text \<open>The claim as stated has the flag default to true: the configuration of a command
  line without the switch has it false, and the chart of such a run carries the memory curve
  alone.\<close>

theorem include_io_default_counterexample:
  "include_io (config_of (bare_args ''1234'')) = False
   \<and> main ((bare_args ''1234'')\<lparr>arg_plot := Some ''plot.png''\<rparr>)
        ((calm [seen 1 Running lonely, seen 2 Zombie lonely])\<lparr>int_of := (\<lambda>s. Some 1234)\<rparr>)
      = Some ([Print_attaching 1234, Attach 1234,
               Append \<lparr>elapsed = 1, cpu = 10, mem_real = 4, mem_virtual = 8,
                       io_read = 3, io_write = 5\<rparr>,
               Print_finished 2,
               Savefig ''plot.png''
                 \<lparr>chart_times = [1], cpu_curve = [10], cpu_ylim = 12,
                  twin_curves = [[4]], twin_ylim = 24 / 5\<rparr>],
              None)"
  by (simp add: run_defs lonely_def iteration_defs sample_defs)

subsection \<open>The chart of an empty series\<close>

text \<open>
  C2, as amended. Nothing guards the empty series: for every value of \<open>include_io\<close> and
  \<open>max_cpu_scale\<close>, drawing the chart of zero samples raises, \<open>ValueError\<close> from
  \<open>max\<close> of an empty list (or, with \<open>max_cpu_scale\<close> and no CPU count, \<open>TypeError\<close>
  before it), and nothing is saved.
\<close>

theorem render_empty_series:
  "render cfg n [] = Inl (if max_cpu_scale cfg \<and> n = None then TypeError else ValueError)
   \<and> draw cfg w []
       = (if truthy (plot cfg)
          then ([], Some (if max_cpu_scale cfg \<and> cpu_count w = None then TypeError
                          else ValueError))
          else ([], None))"
  by (simp add: render_def draw_def cpu_axis_def twin_axis_def py_max_def split: option.splits)

text \<open>The claim as stated has the fault never propagate: a process found zombie by the
  first status check leaves the series empty, and \<open>ValueError\<close> leaves \<open>monitor\<close>.\<close>

theorem empty_series_counterexample:
  "monitor charting 7 (calm [seen 1 Zombie family])
     = Some ([Attach 7, Print_finished 1], Some ValueError)"
  by (simp add: run_defs charting_def monitor_defaults_def iteration_defs)

subsection \<open>A failing query on the root handle\<close>

text \<open>
  C3. The claim has the loop end cleanly, with the log closed and the chart drawn, whenever
  a metric query on the root handle fails. In the run below the I/O counters of the root are
  denied in the second iteration: \<open>AccessDenied\<close> leaves \<open>monitor\<close>, the log is not closed
  and no chart is saved.
\<close>

theorem io_failure_escapes:
  "monitor logging_charting 7 (calm [seen 1 Running lonely, seen 2 Running no_io])
     = Some ([Attach 7, Log_open ''log.txt'', Log_header, Log_row 1 10 4 8, Log_flush,
              Append \<lparr>elapsed = 1, cpu = 10, mem_real = 4, mem_virtual = 8,
                      io_read = 3, io_write = 5\<rparr>],
             Some AccessDenied)"
  by (simp add: run_defs logging_charting_def monitor_defaults_def lonely_def no_io_def
      iteration_defs sample_defs)

text \<open>The CPU and the memory query of the root sit in a \<open>try\<close> of their own, and their
  failure is a \<open>break\<close>.\<close>

lemma root_failure_breaks:
  assumes "read_status ob = Go st" and "st \<noteq> Zombie" and "st \<noteq> Dead"
    and "\<not> over_time cfg (now ob - t0)"
    and "get_percent (pr ob) = Inl e \<or> (\<exists>c. get_percent (pr ob) = Inr c \<and> get_memory (pr ob) = Inl e)"
    and "is_Exception e"
  shows "iteration cfg t0 ob = ([], Break)"
  using assms
  by (auto simp: iteration_def Let_def take_sample_def measure_root_def)

subsection \<open>A log file that cannot be opened\<close>

text \<open>
  C4, as amended. When the log file cannot be opened, the exception of \<open>open\<close> leaves
  \<open>monitor\<close> and \<open>main\<close> before the loop starts, whatever the loop would have observed:
  no status or metric is read and nothing is recorded. By then the process has been attached
  to, and in command mode spawned.
\<close>

theorem log_open_failure:
  assumes "truthy (arg_log a)" and "open_res w = Some e" and "process_ctor w = None"
  shows "(\<forall>pid. int_of w (process_id_or_command a) = Some pid \<longrightarrow>
            main a (w\<lparr>passes := obs\<rparr>) = Some ([Print_attaching pid, Attach pid], Some e))
       \<and> (\<forall>pid. int_of w (process_id_or_command a) = None \<and> popen w = Inr pid \<longrightarrow>
            main a (w\<lparr>passes := obs\<rparr>)
              = Some ([Print_starting (process_id_or_command a),
                       Popen (process_id_or_command a) pid, Attach pid], Some e))"
  using assms
  by (simp add: main_def monitor_def open_log_def config_of_def)

theorem log_open_failure_witness:
  "main spawn_args ((calm [])\<lparr>open_res := Some OSError, passes := [seen 1 Running family]\<rparr>)
     = Some ([Print_starting ''sleep 5'', Popen ''sleep 5'' 4242, Attach 4242], Some OSError)"
proof -
  have "truthy (arg_log spawn_args)"
    by (simp add: spawn_args_def bare_args_def truthy_def)
  moreover have "open_res ((calm [])\<lparr>open_res := Some OSError\<rparr>) = Some OSError"
    "process_ctor ((calm [])\<lparr>open_res := Some OSError\<rparr>) = None"
    "int_of ((calm [])\<lparr>open_res := Some OSError\<rparr>) (process_id_or_command spawn_args) = None"
    "popen ((calm [])\<lparr>open_res := Some OSError\<rparr>) = Inr 4242"
    by (simp_all add: calm_def)
  ultimately show ?thesis
    using log_open_failure [of spawn_args "(calm [])\<lparr>open_res := Some OSError\<rparr>" OSError
        "[seen 1 Running family]"]
    by (simp add: spawn_args_def bare_args_def)
qed

text \<open>The claim as stated has no process spawned or attached when the log cannot be
  opened: the run below has spawned the command and attached to it.\<close>

theorem log_open_failure_counterexample:
  "main spawn_args ((calm [])\<lparr>open_res := Some OSError\<rparr>)
     = Some ([Print_starting ''sleep 5'', Popen ''sleep 5'' 4242, Attach 4242], Some OSError)"
  by (simp add: run_defs spawn_args_def truthy_def)

subsection \<open>A descendant whose query fails\<close>

text \<open>
  C5. The claim has a descendant whose query fails contribute nothing to the sample, neither
  CPU nor memory. In the first sample below the only child answers 15 percent and then has
  its memory query denied: it raises the CPU of the sample from the root's 10 to 25 and adds
  no memory. The second sample is that of the root without the child.
\<close>

theorem half_counted_descendant:
  "take_sample with_children 1 lame_family
     = Go \<lparr>elapsed = 1, cpu = 25, mem_real = 4, mem_virtual = 8, io_read = 3, io_write = 5\<rparr>
   \<and> take_sample with_children 1 lonely
     = Go \<lparr>elapsed = 1, cpu = 10, mem_real = 4, mem_virtual = 8, io_read = 3, io_write = 5\<rparr>"
  by (simp add: lame_family_def lonely_def with_children_def monitor_defaults_def sample_defs)

text \<open>What holds of the loop over the descendants: a descendant whose CPU query fails is
  skipped, and one whose memory query fails after its CPU query answered adds its CPU
  percentage alone; the other descendants are aggregated as without it.\<close>

lemma add_children_append:
  "add_children (pre @ rest) acc
     = (case add_children pre acc of Inl e \<Rightarrow> Inl e | Inr acc' \<Rightarrow> add_children rest acc')"
proof (induction pre arbitrary: acc)
  case Nil
  then show ?case by simp
next
  case (Cons d pre)
  obtain c r v where acc: "acc = (c, r, v)" by (cases acc)
  show ?case
    unfolding acc using Cons [of "(c, r, v)"] Cons
    by (auto split: sum.splits)
qed

lemma add_children_shift:
  "add_children ds (c + x, r, v)
     = map_sum id (\<lambda>(c', r', v'). (c' + x, r', v')) (add_children ds (c, r, v))"
proof (induction ds arbitrary: c r v)
  case Nil
  then show ?case by simp
next
  case (Cons d ds)
  have s: "\<And>y. c + x + y = c + y + x" by simp
  show ?case
    using Cons [of c r v] Cons [of "c + projr (get_percent d)" r v]
      Cons [of "c + projr (get_percent d)" "r + mb (rss (projr (get_memory d)))"
        "v + mb (vms (projr (get_memory d)))"]
    by (auto simp: s split: sum.splits)
qed

lemma failed_descendant_is_local:
  assumes "is_Exception e"
  shows "(get_percent d = Inl e \<longrightarrow>
            add_children (pre @ d # post) acc = add_children (pre @ post) acc)
       \<and> (get_percent d = Inr c \<and> get_memory d = Inl e \<longrightarrow>
            add_children (pre @ d # post) acc
              = map_sum id (\<lambda>(c', r', v'). (c' + c, r', v')) (add_children (pre @ post) acc))"
proof (intro conjI impI)
  assume "get_percent d = Inl e"
  with assms show "add_children (pre @ d # post) acc = add_children (pre @ post) acc"
    by (auto simp: add_children_append split: sum.splits)
next
  assume a: "get_percent d = Inr c \<and> get_memory d = Inl e"
  show "add_children (pre @ d # post) acc
      = map_sum id (\<lambda>(c', r', v'). (c' + c, r', v')) (add_children (pre @ post) acc)"
  proof (cases "add_children pre acc")
    case (Inl x)
    then show ?thesis by (simp add: add_children_append)
  next
    case (Inr acc')
    obtain c0 r0 v0 where acc': "acc' = (c0, r0, v0)" by (cases acc')
    with Inr a assms show ?thesis
      by (simp add: add_children_append add_children_shift)
  qed
qed

subsection \<open>The spawned process\<close>

lemma monitor_returns:
  assumes "process_ctor w = None" and "open_log cfg w = (e0, None)"
    and "loop cfg (clock w) (passes w) = Some (e1, r)" and "r = None \<or> r = Some KeyboardInterrupt"
    and "finish cfg w (series_of e1) = (e2, None)"
  shows "monitor cfg pid w = Some (Attach pid # e0 @ e1 @ e2, None)"
  using assms by (auto simp: monitor_def)

text \<open>
  C1, as amended. In command mode the spawned process is killed, as the last action of
  \<open>main\<close>, whenever \<open>monitor\<close> returns: the loop was left by \<open>break\<close> (the process
  ended, the time budget was used up) or by \<open>KeyboardInterrupt\<close>, and neither the opening
  of the log before the loop nor the closing of the log and the drawing of the chart after it
  raised.
\<close>

theorem spawned_process_killed:
  assumes "int_of w (process_id_or_command a) = None" and "popen w = Inr pid"
    and "process_ctor w = None" and "open_log (config_of a) w = (e0, None)"
    and "loop (config_of a) (clock w) (passes w) = Some (e1, r)"
    and "r = None \<or> r = Some KeyboardInterrupt"
    and "finish (config_of a) w (series_of e1) = (e2, None)"
  shows "main a w
     = Some (Print_starting (process_id_or_command a) # Popen (process_id_or_command a) pid
             # (Attach pid # e0 @ e1 @ e2) @ [Kill pid], None)"
  using monitor_returns [OF assms(3-7), of pid] assms(1,2)
  by (simp add: main_def)

theorem spawned_process_killed_witness:
  "main spawn_args (calm [seen 1 Running lonely, seen 2 Zombie lonely])
     = Some ([Print_starting ''sleep 5'', Popen ''sleep 5'' 4242, Attach 4242,
              Log_open ''log.txt'', Log_header, Log_row 1 10 4 8, Log_flush,
              Print_finished 2, Log_close, Kill 4242], None)
   \<and> main spawn_args (calm [seen 1 Running lonely, cancelled])
     = Some ([Print_starting ''sleep 5'', Popen ''sleep 5'' 4242, Attach 4242,
              Log_open ''log.txt'', Log_header, Log_row 1 10 4 8, Log_flush,
              Log_close, Kill 4242], None)"
proof -
  let ?w = "calm [seen 1 Running lonely, seen 2 Zombie lonely]"
  let ?v = "calm [seen 1 Running lonely, cancelled]"
  have c: "config_of spawn_args
      = monitor_defaults\<lparr>logfile := Some ''log.txt'', include_io := False\<rparr>"
    by (simp add: config_of_def spawn_args_def bare_args_def monitor_defaults_def)
  have w1: "int_of ?w (process_id_or_command spawn_args) = None" "popen ?w = Inr 4242"
    "process_ctor ?w = None"
    by (simp_all add: calm_def)
  have w2: "open_log (config_of spawn_args) ?w = ([Log_open ''log.txt'', Log_header], None)"
    by (simp add: c open_log_def calm_def truthy_def monitor_defaults_def)
  have w3: "loop (config_of spawn_args) (clock ?w) (passes ?w)
      = Some ([Log_row 1 10 4 8, Log_flush, Print_finished 2], None)"
    by (simp add: c calm_def monitor_defaults_def lonely_def iteration_defs sample_defs)
  have w4: "finish (config_of spawn_args) ?w
      (series_of [Log_row 1 10 4 8, Log_flush, Print_finished 2]) = ([Log_close], None)"
    by (simp add: c finish_def close_log_def draw_def calm_def truthy_def monitor_defaults_def)
  have v1: "int_of ?v (process_id_or_command spawn_args) = None" "popen ?v = Inr 4242"
    "process_ctor ?v = None"
    by (simp_all add: calm_def)
  have v2: "open_log (config_of spawn_args) ?v = ([Log_open ''log.txt'', Log_header], None)"
    by (simp add: c open_log_def calm_def truthy_def monitor_defaults_def)
  have v3: "loop (config_of spawn_args) (clock ?v) (passes ?v)
      = Some ([Log_row 1 10 4 8, Log_flush], Some KeyboardInterrupt)"
    by (simp add: c calm_def monitor_defaults_def lonely_def cancelled_def iteration_defs
        sample_defs)
  have v4: "finish (config_of spawn_args) ?v
      (series_of [Log_row 1 10 4 8, Log_flush]) = ([Log_close], None)"
    by (simp add: c finish_def close_log_def draw_def calm_def truthy_def monitor_defaults_def)
  from spawned_process_killed [OF w1 w2 w3 _ w4] spawned_process_killed [OF v1 v2 v3 _ v4]
  show ?thesis by (simp add: spawn_args_def bare_args_def)
qed

text \<open>The claim as stated has the process killed on the error exits of the loop too: when
  the write of a row fails, \<open>OSError\<close> leaves \<open>monitor\<close> and \<open>main\<close>, and the spawned
  process is not killed.\<close>

theorem spawned_process_killed_counterexample:
  "main spawn_args (calm [(seen 1 Running family)\<lparr>write_res := Some OSError\<rparr>])
     = Some ([Print_starting ''sleep 5'', Popen ''sleep 5'' 4242, Attach 4242,
              Log_open ''log.txt'', Log_header], Some OSError)"
  by (simp add: run_defs spawn_args_def family_def iteration_defs sample_defs)

end
